theory Spec2Isabelle
  imports Complex_Main "HOL-Library.Word"
begin

section \<open>Strings\<close>

text \<open>
  The risk level is a Python \<open>str\<close>; the monitor tests it with \<open>"ALERT" in risk_status\<close>
  and the classifier fallback with \<open>'person' in pred[1].lower()\<close>. Both are the substring
  test of Python, written here over \<open>string\<close>.
\<close>

fun startswith :: "string \<Rightarrow> string \<Rightarrow> bool" where
  "startswith s [] = True"
| "startswith [] (p # ps) = False"
| "startswith (c # cs) (p # ps) = (c = p \<and> startswith cs ps)"

fun contains :: "string \<Rightarrow> string \<Rightarrow> bool" where
  "contains sub [] = (sub = [])"
| "contains sub (c # cs) = (startswith (c # cs) sub \<or> contains sub cs)"

definition lower_char :: "char \<Rightarrow> char" where
  "lower_char c =
     (let n = (of_char c :: nat) in if 65 \<le> n \<and> n \<le> 90 then char_of (n + 32) else c)"

definition lower :: "string \<Rightarrow> string" where
  "lower s = map lower_char s"

section \<open>ai_model.py\<close>

text \<open>
  Exceptions of the program, as values. \<open>CvError\<close> is \<open>cv2.error\<close>, \<open>SqliteError\<close> is
  an \<open>sqlite3.Error\<close> raised inside \<open>log_alert\<close>, \<open>DetectorError msg\<close> is any
  \<open>Exception\<close> raised by a detection backend (detector unavailable, time-out, malformed
  input, model error), with its message, and \<open>PrintError msg\<close> is an exception raised by
  \<open>print\<close> (\<open>UnicodeEncodeError\<close>, or \<open>ValueError\<close> on a closed output).
  \<open>KeyboardInterrupt\<close> stands for the exceptions that derive from \<open>BaseException\<close> and
  not from \<open>Exception\<close>; \<open>except Exception\<close> does not catch them.
\<close>

datatype exn = CvError | SqliteError | DetectorError string | PrintError string | KeyboardInterrupt

fun is_Exception :: "exn \<Rightarrow> bool" where
  "is_Exception KeyboardInterrupt = False"
| "is_Exception e = True"

text \<open>
  The module-level flags: \<open>USE_YOLO\<close> and \<open>USE_TF\<close> are set once when \<open>ai_model\<close> is
  imported, \<open>SOUND_AVAILABLE\<close> when \<open>detection\<close> is.
\<close>

record config =
  USE_YOLO :: bool
  USE_TF :: bool
  SOUND_AVAILABLE :: bool

text \<open>
  \<open>detect_humans_in_frame\<close>. The two backends are external: \<open>yolo\<close> is the outcome of
  \<open>yolo_detector.detect_humans(frame)\<close> (a list of detections, or an exception), and
  \<open>tf\<close> the outcome of the resize / predict / \<open>decode_predictions\<close> chain (the class
  names of the five decoded predictions, or an exception). The body of the \<open>try\<close> is
  \<open>detect_humans_try\<close>. The handler \<open>except Exception as e\<close> catches the exceptions of
  the body that derive from \<open>Exception\<close>; it prints a message and then returns the pair
  \<open>(0, [])\<close>. \<open>handler_print\<close> is the exception of that \<open>print\<close>, when it raises one:
  the handler is outside the \<open>try\<close>, so this exception leaves the function.
\<close>

definition detect_humans_try ::
  "config \<Rightarrow> exn + 'd list \<Rightarrow> exn + string list \<Rightarrow> exn + nat \<times> 'd list" where
  "detect_humans_try cfg yolo tf =
     (if USE_YOLO cfg then
        (case yolo of
           Inl e \<Rightarrow> Inl e
         | Inr detections \<Rightarrow> Inr (length detections, detections))
      else if USE_TF cfg then
        (case tf of
           Inl e \<Rightarrow> Inl e
         | Inr decoded \<Rightarrow>
             (let human_detected = list_ex (\<lambda>pred. contains ''person'' (lower pred)) decoded
              in Inr (if human_detected then 1 else 0, [])))
      else Inr (0, []))"

definition detect_humans_in_frame ::
  "config \<Rightarrow> exn + 'd list \<Rightarrow> exn + string list \<Rightarrow> exn option \<Rightarrow> exn + nat \<times> 'd list" where
  "detect_humans_in_frame cfg yolo tf handler_print =
     (case detect_humans_try cfg yolo tf of
        Inl e \<Rightarrow>
          (if is_Exception e then
             (case handler_print of
                Some e' \<Rightarrow> Inl e'
              | None \<Rightarrow> Inr (0, []))
           else Inl e)
      | Inr r \<Rightarrow> Inr r)"

text \<open>
  \<open>analyze_drowning_risk\<close>. \<open>time_without_motion\<close> is a difference of two readings of
  \<open>time.time()\<close>; the comparison with \<open>10\<close> is exact on such values, so the model takes a
  real number.
\<close>

definition analyze_drowning_risk :: "bool \<Rightarrow> bool \<Rightarrow> real \<Rightarrow> string" where
  "analyze_drowning_risk human_present motion_detected time_without_motion =
     (if \<not> human_present then ''No human detected''
      else if motion_detected then ''Active - Normal swimming''
      else if time_without_motion > 10 then ''ALERT: Potential drowning - No motion detected''
      else ''Monitoring - Minimal motion'')"

section \<open>detection.py: detect_motion\<close>

text \<open>
  A frame is the BGR image that \<open>cap.read()\<close> returns: rows of pixels, each pixel three
  bytes (blue, green, red). A grayscale image has one byte per pixel. The value \<open>None\<close>
  that a failed read returns is the empty image: OpenCV converts it to an empty matrix.
\<close>

type_synonym pixel = "8 word \<times> 8 word \<times> 8 word"
type_synonym frame = "pixel list list"
type_synonym gray = "8 word list list"

definition shape :: "'a list list \<Rightarrow> nat \<times> nat" where
  "shape img = (length img, case img of [] \<Rightarrow> 0 | row # _ \<Rightarrow> length row)"

text \<open>
  The OpenCV primitives that \<open>detect_motion\<close> calls, after their documentation.
  \<open>cvtColor(src, COLOR_BGR2GRAY)\<close> computes \<open>0.299 R + 0.587 G + 0.114 B\<close> on bytes in
  fixed point, as OpenCV 4 does: the weights are 9798, 19235 and 3735 out of 32768 and the
  sum is rounded by adding 16384 before the shift by 15 bits. It rejects an empty source
  with \<open>cv2.error\<close>.
\<close>

definition gray_of :: "pixel \<Rightarrow> 8 word" where
  "gray_of p =
     (case p of (b, g, r) \<Rightarrow>
        of_nat ((3735 * unat b + 19235 * unat g + 9798 * unat r + 16384) div 32768))"

definition cvtColor :: "frame \<Rightarrow> exn + gray" where
  "cvtColor src =
     (if fst (shape src) = 0 \<or> snd (shape src) = 0 then Inl CvError
      else Inr (map (map gray_of) src))"

text \<open>
  \<open>absdiff(src1, src2)\<close>: the per-element absolute difference of two arrays of the same
  size; two arrays of different sizes are rejected with \<open>cv2.error\<close>.
\<close>

definition absd :: "8 word \<Rightarrow> 8 word \<Rightarrow> 8 word" where
  "absd x y = (if x \<le> y then y - x else x - y)"

definition absdiff :: "gray \<Rightarrow> gray \<Rightarrow> exn + gray" where
  "absdiff src1 src2 =
     (if shape src1 = shape src2 then Inr (map2 (map2 absd) src1 src2)
      else Inl CvError)"

text \<open>\<open>threshold(src, thresh, maxval, THRESH_BINARY)[1]\<close>.\<close>

definition threshold :: "gray \<Rightarrow> 8 word \<Rightarrow> 8 word \<Rightarrow> gray" where
  "threshold src thresh maxval = map (map (\<lambda>x. if x > thresh then maxval else 0)) src"

text \<open>
  \<open>dilate(src, None, iterations=n)\<close>: \<open>n\<close> passes of the 3 x 3 rectangular structuring
  element; each pass gives a pixel the maximum over its neighbourhood, and positions
  outside the image do not count (they read as 0, the least byte).
\<close>

definition pixel_at :: "gray \<Rightarrow> int \<Rightarrow> int \<Rightarrow> 8 word" where
  "pixel_at img i j =
     (if 0 \<le> i \<and> i < int (length img) \<and> 0 \<le> j \<and> j < int (length (img ! nat i))
      then img ! nat i ! nat j else 0)"

definition dilate3 :: "gray \<Rightarrow> gray" where
  "dilate3 img =
     map (\<lambda>i. map (\<lambda>j. fold max
                  (concat (map (\<lambda>di. map (\<lambda>dj. pixel_at img (int i + di) (int j + dj))
                     [-1, 0, 1]) [-1, 0, 1])) 0)
            [0 ..< length (img ! i)])
       [0 ..< length img]"

fun dilate :: "gray \<Rightarrow> nat \<Rightarrow> gray" where
  "dilate src 0 = src"
| "dilate src (Suc n) = dilate (dilate3 src) n"

text \<open>
  \<open>findContours(image, RETR_EXTERNAL, CHAIN_APPROX_SIMPLE)[0]\<close>: one contour for each
  outer region of non-zero pixels, regions being connected through the eight neighbours
  of a pixel. The model returns each region as the list of its pixels (the monitor reads
  only the number of contours). \<open>RETR_EXTERNAL\<close> leaves out a region that lies in a hole
  of another one; the model keeps it, which does not change whether the list is empty.
\<close>

definition nonzero :: "gray \<Rightarrow> (nat \<times> nat) list" where
  "nonzero img =
     concat (map (\<lambda>(i, row). map (\<lambda>(j, v). (i, j)) (filter (\<lambda>(j, v). v \<noteq> 0) (enumerate 0 row)))
       (enumerate 0 img))"

definition adjacent :: "nat \<times> nat \<Rightarrow> nat \<times> nat \<Rightarrow> bool" where
  "adjacent p q =
     (fst p \<le> fst q + 1 \<and> fst q \<le> fst p + 1 \<and> snd p \<le> snd q + 1 \<and> snd q \<le> snd p + 1)"

function grow :: "(nat \<times> nat) list \<Rightarrow> (nat \<times> nat) list \<Rightarrow> (nat \<times> nat) list \<times> (nat \<times> nat) list" where
  "grow region rest =
     (let near = filter (\<lambda>q. list_ex (adjacent q) region) rest;
          far = filter (\<lambda>q. \<not> list_ex (adjacent q) region) rest
      in if near = [] then (region, rest) else grow (region @ near) far)"
  by pat_completeness auto
termination
proof (relation "measure (\<lambda>(region, rest). length rest)")
  show "wf (measure (\<lambda>(region, rest). length rest))" by simp
next
  fix region rest :: "(nat \<times> nat) list" and near far
  assume near: "near = filter (\<lambda>q. list_ex (adjacent q) region) rest"
    and far: "far = filter (\<lambda>q. \<not> list_ex (adjacent q) region) rest"
    and ne: "near \<noteq> []"
  have "length near + length far = length rest"
    unfolding near far by (rule sum_length_filter_compl)
  moreover have "length near \<noteq> 0" using ne by simp
  ultimately have "length far < length rest" by arith
  then show "((region @ near, far), (region, rest)) \<in> measure (\<lambda>(region, rest). length rest)"
    by simp
qed

declare grow.simps [simp del]

lemma grow_rest_le: "length (snd (grow region rest)) \<le> length rest"
proof (induction region rest rule: grow.induct)
  case (1 region rest)
  let ?near = "filter (\<lambda>q. list_ex (adjacent q) region) rest"
  let ?far = "filter (\<lambda>q. \<not> list_ex (adjacent q) region) rest"
  show ?case
  proof (cases "?near = []")
    case True
    then show ?thesis by (subst grow.simps) (simp add: Let_def)
  next
    case False
    have step: "length (snd (grow (region @ ?near) ?far)) \<le> length ?far"
      using "1.IH" [OF refl refl False] .
    have far: "length ?far \<le> length rest" by simp
    have unfold: "grow region rest = grow (region @ ?near) ?far"
      using False by (subst grow.simps) (simp add: Let_def)
    show ?thesis unfolding unfold by (rule le_trans [OF step far])
  qed
qed

function components :: "(nat \<times> nat) list \<Rightarrow> (nat \<times> nat) list list" where
  "components [] = []"
| "components (p # ps) = fst (grow [p] ps) # components (snd (grow [p] ps))"
  by pat_completeness auto
termination
  by (relation "measure length") (auto simp: grow_rest_le le_imp_less_Suc)

definition findContours :: "gray \<Rightarrow> (nat \<times> nat) list list" where
  "findContours img = components (nonzero img)"

text \<open>\<open>detect_motion\<close> itself: an exception of a primitive leaves the function.\<close>

definition detect_motion :: "frame \<Rightarrow> frame \<Rightarrow> exn + bool \<times> gray" where
  "detect_motion frame1 frame2 =
     (case cvtColor frame1 of
        Inl e \<Rightarrow> Inl e
      | Inr gray1 \<Rightarrow>
     (case cvtColor frame2 of
        Inl e \<Rightarrow> Inl e
      | Inr gray2 \<Rightarrow>
     (case absdiff gray1 gray2 of
        Inl e \<Rightarrow> Inl e
      | Inr diff \<Rightarrow>
          (let thresh = threshold diff 25 255;
               thresh = dilate thresh 2;
               contours = findContours thresh;
               motion_detected = (length contours > 0)
           in Inr (motion_detected, thresh)))))"

section \<open>database.py\<close>

text \<open>
  A row of the \<open>alerts\<close> table. \<open>details\<close> is the string
  \<open>f"Status: {risk_status}, Time without motion: {time_without_motion:.1f}s"\<close>; the row
  keeps its two arguments instead of the formatted text.
\<close>

record alert =
  alert_type :: string
  status :: string
  time_without_motion :: real

text \<open>
  \<open>log_alert\<close> connects, inserts, commits and closes, with no \<open>try\<close>: an exception of
  \<open>sqlite3\<close> (\<open>fault\<close>, when there is one) leaves the function and no row is added.
\<close>

definition log_alert :: "alert list \<Rightarrow> exn option \<Rightarrow> alert \<Rightarrow> exn + alert list" where
  "log_alert table fault row =
     (case fault of
        Some e \<Rightarrow> Inl e
      | None \<Rightarrow> Inr (table @ [row]))"

section \<open>detection.py: main\<close>

text \<open>
  The variables of \<open>main\<close>, and what the loop has done so far: \<open>reported\<close> holds the
  \<open>risk_status\<close> printed at each frame, \<open>alerts\<close> the rows of the alerts table,
  \<open>detector_calls\<close> the value of \<open>frame_count\<close> at each call of
  \<open>detect_humans_in_frame\<close>, \<open>beeps\<close> the number of beeps that sounded.
\<close>

record monitor =
  frame1 :: frame
  frame2 :: frame
  last_motion_time :: real
  frame_count :: nat
  human_present :: bool
  reported :: "string list"
  alerts :: "alert list"
  detector_calls :: "nat list"
  beeps :: nat

text \<open>
  What the world answers during one iteration of the loop: \<open>opened\<close> is
  \<open>cap.isOpened()\<close> at the loop test, \<open>now_motion\<close> and \<open>now\<close> are the readings of
  \<open>time.time()\<close> at lines 79 and 87, \<open>yolo\<close> and \<open>tf\<close> the outcomes of the detection
  backends on \<open>frame2\<close>, \<open>handler_print\<close> the exception of the \<open>print\<close> in the handler
  of \<open>detect_humans_in_frame\<close> if it raises, \<open>sink_fault\<close> the exception of \<open>sqlite3\<close>
  if the insertion of this iteration fails, \<open>beep_ok\<close> whether \<open>winsound.Beep\<close> returns, \<open>next_frame\<close> the
  frame of \<open>cap.read()\<close> at line 109 (\<open>None\<close> when \<open>ret\<close> is false), and \<open>key_q\<close>
  whether \<open>waitKey\<close> reports the key q.
\<close>

record 'd tick =
  opened :: bool
  now_motion :: real
  yolo :: "exn + 'd list"
  tf :: "exn + string list"
  handler_print :: "exn option"
  now :: real
  sink_fault :: "exn option"
  beep_ok :: bool
  next_frame :: "frame option"
  key_q :: bool

datatype signal = Next | Break | Raise exn

text \<open>Lines 81 to 84: the detector is called when \<open>frame_count\<close> is a multiple of 30.\<close>

definition sample_presence :: "config \<Rightarrow> monitor \<Rightarrow> 'd tick \<Rightarrow> exn + monitor" where
  "sample_presence cfg m t =
     (if frame_count m mod 30 = 0 then
        (case detect_humans_in_frame cfg (yolo t) (tf t) (handler_print t) of
           Inl e \<Rightarrow> Inl e
         | Inr (human_count, detections) \<Rightarrow>
             Inr (m\<lparr>human_present := human_count > 0,
                    detector_calls := detector_calls m @ [frame_count m]\<rparr>))
      else Inr m)"

text \<open>
  Lines 94 to 102: \<open>log_alert\<close> is called outside any \<open>try\<close>; the beep is inside
  \<open>try: ... except: pass\<close>.
\<close>

definition dispatch_alert ::
  "config \<Rightarrow> monitor \<Rightarrow> 'd tick \<Rightarrow> string \<Rightarrow> real \<Rightarrow> exn + monitor" where
  "dispatch_alert cfg m t risk_status twm =
     (if contains ''ALERT'' risk_status then
        (case log_alert (alerts m) (sink_fault t)
                \<lparr>alert_type = ''DROWNING_ALERT'', status = risk_status,
                 time_without_motion = twm\<rparr> of
           Inl e \<Rightarrow> Inl e
         | Inr table \<Rightarrow>
             (let m = m\<lparr>alerts := table\<rparr>
              in Inr (if SOUND_AVAILABLE cfg \<and> beep_ok t then m\<lparr>beeps := beeps m + 1\<rparr>
                      else m)))
      else Inr m)"

text \<open>
  One iteration, lines 72 to 116. An exception leaves the loop with the state reached
  when it was raised; a call of \<open>detect_humans_in_frame\<close> that raises is recorded in
  \<open>detector_calls\<close> as a call. When the read of line 109 fails, \<open>frame2\<close> is \<open>None\<close> in the
  source and the loop breaks; the model leaves \<open>frame2\<close> as it was. The window that
  shows \<open>thresh\<close> is left out.
\<close>

definition loop_body :: "config \<Rightarrow> monitor \<Rightarrow> 'd tick \<Rightarrow> signal \<times> monitor" where
  "loop_body cfg m0 t =
     (let m1 = m0\<lparr>frame_count := frame_count m0 + 1\<rparr> in
      case detect_motion (frame1 m1) (frame2 m1) of
        Inl e \<Rightarrow> (Raise e, m1)
      | Inr (motion, thresh) \<Rightarrow>
     (let m2 = (if motion then m1\<lparr>last_motion_time := now_motion t\<rparr> else m1) in
      case sample_presence cfg m2 t of
        Inl e \<Rightarrow> (Raise e, m2\<lparr>detector_calls := detector_calls m2 @ [frame_count m2]\<rparr>)
      | Inr m3 \<Rightarrow>
     (let twm = now t - last_motion_time m3;
          risk_status = analyze_drowning_risk (human_present m3) motion twm;
          m4 = m3\<lparr>reported := reported m3 @ [risk_status]\<rparr> in
      case dispatch_alert cfg m4 t risk_status twm of
        Inl e \<Rightarrow> (Raise e, m4)
      | Inr m5 \<Rightarrow>
     (let m6 = m5\<lparr>frame1 := frame2 m5\<rparr> in
      case next_frame t of
        None \<Rightarrow> (Break, m6)
      | Some f \<Rightarrow>
          (let m7 = m6\<lparr>frame2 := f\<rparr>
           in if key_q t then (Break, m7) else (Next, m7))))))"

text \<open>
  The loop over the answers of the world. \<open>Running\<close>: the answers are used up and the
  loop has neither stopped nor raised.
\<close>

datatype outcome = Running | Stopped | Raised exn

fun main_loop :: "config \<Rightarrow> monitor \<Rightarrow> 'd tick list \<Rightarrow> outcome \<times> monitor" where
  "main_loop cfg m [] = (Running, m)"
| "main_loop cfg m (t # ts) =
     (if \<not> opened t then (Stopped, m)
      else (case loop_body cfg m t of
              (Next, m') \<Rightarrow> main_loop cfg m' ts
            | (Break, m') \<Rightarrow> (Stopped, m')
            | (Raise e, m') \<Rightarrow> (Raised e, m')))"

text \<open>
  \<open>main\<close>: \<open>read1\<close> and \<open>read2\<close> are the frames of the two reads before the loop
  (\<open>None\<close> when the read fails), \<open>clock0\<close> the reading of \<open>time.time()\<close> at line 67.
  When the second read fails, \<open>main\<close> returns before the loop: \<open>None\<close>.
\<close>

definition start :: "frame \<Rightarrow> frame \<Rightarrow> real \<Rightarrow> monitor" where
  "start f1 f2 clock0 =
     \<lparr>frame1 = f1, frame2 = f2, last_motion_time = clock0, frame_count = 0,
      human_present = False, reported = [], alerts = [], detector_calls = [], beeps = 0\<rparr>"

definition main ::
  "config \<Rightarrow> frame option \<Rightarrow> frame option \<Rightarrow> real \<Rightarrow> 'd tick list \<Rightarrow> (outcome \<times> monitor) option" where
  "main cfg read1 read2 clock0 ticks =
     (case read2 of
        None \<Rightarrow> None
      | Some f2 \<Rightarrow>
          Some (main_loop cfg (start (case read1 of None \<Rightarrow> [] | Some f1 \<Rightarrow> f1) f2 clock0) ticks))"

section \<open>Sample inputs and auxiliary predicates\<close>

text \<open>
  A camera that shows a black picture of 2 x 2 pixels, one frame each second; the YOLO
  backend sees one person on every frame it is given, the database accepts every row.
  \<open>calm i\<close> is what the world answers during the iteration that runs at second \<open>i\<close>.
\<close>

definition still :: frame where
  "still = [[(0, 0, 0), (0, 0, 0)], [(0, 0, 0), (0, 0, 0)]]"

definition wide :: frame where
  "wide = [[(0, 0, 0), (0, 0, 0), (0, 0, 0)], [(0, 0, 0), (0, 0, 0), (0, 0, 0)]]"

definition yolo_cfg :: config where
  "yolo_cfg = \<lparr>USE_YOLO = True, USE_TF = False, SOUND_AVAILABLE = True\<rparr>"

definition calm :: "nat \<Rightarrow> nat tick" where
  "calm i =
     \<lparr>opened = True, now_motion = real i, yolo = Inr [0], tf = Inr [], handler_print = None,
      now = real i, sink_fault = None, beep_ok = True, next_frame = Some still, key_q = False\<rparr>"

definition first_frames :: "nat tick list" where
  "first_frames = map calm [1 ..< 30]"

text \<open>An iteration that nothing disturbs: the capture is open and delivers the same black
  frame, no key is pressed, the database accepts the row, no backend is interrupted and the
  handler of the detector can print.\<close>

definition plain :: "'d tick \<Rightarrow> bool" where
  "plain t \<longleftrightarrow>
     opened t \<and> next_frame t = Some still \<and> \<not> key_q t \<and> sink_fault t = None \<and>
     handler_print t = None \<and> yolo t \<noteq> Inl KeyboardInterrupt \<and> tf t \<noteq> Inl KeyboardInterrupt"

text \<open>
  An invariant of the loop: every iteration so far has reported its frame, nobody is recorded
  present before frame 30, and each of the first 29 frames is reported without a subject.
\<close>

definition early :: "monitor \<Rightarrow> bool" where
  "early m \<longleftrightarrow>
     length (reported m) = frame_count m \<and> (frame_count m < 30 \<longrightarrow> \<not> human_present m) \<and>
     list_all (\<lambda>s. s = ''No human detected'') (take 29 (reported m))"

text \<open>An image whose pixels are all 0.\<close>

definition zero_img :: "gray \<Rightarrow> bool" where
  "zero_img img = list_all (list_all (\<lambda>v. v = 0)) img"

section \<open>Properties of the risk analysis\<close>

lemma contains_ALERT_iff:
  "contains ''ALERT'' (analyze_drowning_risk h m t) \<longleftrightarrow> h \<and> \<not> m \<and> 10 < t"
  by (simp add: analyze_drowning_risk_def)

text \<open>
  C3, as the spec states it: with a human present and no motion the level is ALERT as soon
  as the time without motion reaches the threshold of 10 seconds. At exactly 10 seconds
  \<open>analyze_drowning_risk\<close> answers the monitoring status, not the alert.
\<close>

theorem alert_at_threshold_counterexample:
  "analyze_drowning_risk True False 10 = ''Monitoring - Minimal motion'' \<and>
   \<not> contains ''ALERT'' (analyze_drowning_risk True False 10)"
  by (simp add: analyze_drowning_risk_def)

text \<open>
  C3, amended: with a human present and no motion, \<open>analyze_drowning_risk\<close> answers the
  alert status if and only if the time without motion is strictly greater than 10 seconds;
  otherwise it answers the monitoring status.
\<close>

theorem alert_iff_above_threshold:
  "(analyze_drowning_risk True False t = ''ALERT: Potential drowning - No motion detected''
      \<longleftrightarrow> 10 < t) \<and>
   (analyze_drowning_risk True False t = ''Monitoring - Minimal motion'' \<longleftrightarrow> t \<le> 10)"
  by (simp add: analyze_drowning_risk_def)

theorem alert_iff_above_threshold_witness:
  "analyze_drowning_risk True False 10.5 = ''ALERT: Potential drowning - No motion detected'' \<and>
   analyze_drowning_risk True False 10 = ''Monitoring - Minimal motion''"
  using alert_iff_above_threshold [of "10.5"] alert_iff_above_threshold [of 10] by simp

text \<open>
  C8: without a human present the answer is the no-subject status, whatever the motion and
  the time without motion are.
\<close>

theorem no_human_no_subject:
  "analyze_drowning_risk False motion_detected t = ''No human detected''"
  by (simp add: analyze_drowning_risk_def)

theorem no_human_no_subject_witness:
  "analyze_drowning_risk False True 3600 = ''No human detected'' \<and>
   analyze_drowning_risk False False 3600 = ''No human detected''"
  using no_human_no_subject [of True 3600] no_human_no_subject [of False 3600] by simp

section \<open>Properties of the frame differ\<close>

text \<open>An image whose pixels are all 0 stays so through the threshold and the dilation.\<close>

lemma absd_same: "absd x x = 0"
  by (simp add: absd_def)

lemma map2_absd_same: "list_all (\<lambda>v. v = 0) (map2 absd row row)"
  by (induction row) (simp_all add: absd_same)

lemma zero_img_absdiff_same: "zero_img (map2 (map2 absd) g g)"
  unfolding zero_img_def by (induction g) (simp_all add: map2_absd_same)

lemma threshold_row_zero:
  fixes row :: "8 word list"
  shows "list_all (\<lambda>v. v = 0) row \<Longrightarrow>
         list_all (\<lambda>v. v = 0) (map (\<lambda>x. if x > 25 then 255 else 0) row)"
  by (induction row) simp_all

lemma zero_img_threshold: "zero_img z \<Longrightarrow> zero_img (threshold z 25 255)"
  unfolding zero_img_def threshold_def
  by (induction z) (simp_all add: threshold_row_zero)

lemma pixel_at_zero: "zero_img z \<Longrightarrow> pixel_at z i j = 0"
proof -
  assume z: "zero_img z"
  show ?thesis
  proof (cases "0 \<le> i \<and> i < int (length z) \<and> 0 \<le> j \<and> j < int (length (z ! nat i))")
    case True
    then have row: "z ! nat i \<in> set z" by (simp add: nat_less_iff)
    from True have "z ! nat i ! nat j \<in> set (z ! nat i)" by (simp add: nat_less_iff)
    with row z have "z ! nat i ! nat j = 0" by (auto simp: zero_img_def list_all_iff)
    then show ?thesis unfolding pixel_at_def by (simp only: if_P [OF True])
  next
    case False
    show ?thesis unfolding pixel_at_def by (simp only: if_not_P [OF False])
  qed
qed

lemma zero_img_dilate3: "zero_img z \<Longrightarrow> zero_img (dilate3 z)"
proof -
  assume z: "zero_img z"
  have "dilate3 z = map (\<lambda>i. map (\<lambda>j. 0) [0 ..< length (z ! i)]) [0 ..< length z]"
    by (simp add: dilate3_def pixel_at_zero [OF z])
  then show ?thesis by (simp add: zero_img_def list_all_iff)
qed

lemma zero_img_dilate: "zero_img z \<Longrightarrow> zero_img (dilate z n)"
  by (induction n arbitrary: z) (simp_all add: zero_img_dilate3)

lemma nonzero_row_zero:
  "list_all (\<lambda>v. v = 0) row \<Longrightarrow> filter (\<lambda>(j, v). v \<noteq> (0 :: 8 word)) (enumerate n row) = []"
  by (induction row arbitrary: n) simp_all

lemma nonzero_zero_img_from:
  "zero_img z \<Longrightarrow>
   concat (map (\<lambda>(i, row). map (\<lambda>(j, v). (i, j)) (filter (\<lambda>(j, v). v \<noteq> 0) (enumerate 0 row)))
     (enumerate n z)) = []"
  by (induction z arbitrary: n) (simp_all add: zero_img_def nonzero_row_zero)

lemma findContours_zero_img: "zero_img z \<Longrightarrow> findContours z = []"
  by (simp add: findContours_def nonzero_def nonzero_zero_img_from)

lemma shape_map: "shape (map (map f) img) = shape img"
  by (cases img) (simp_all add: shape_def)

lemma detect_motion_same:
  assumes "0 < fst (shape f)" and "0 < snd (shape f)"
  shows "detect_motion f f =
           Inr (False, dilate (threshold (map2 (map2 absd) (map (map gray_of) f) (map (map gray_of) f)) 25 255) 2)"
proof -
  let ?g = "map (map gray_of) f"
  let ?t = "dilate (threshold (map2 (map2 absd) ?g ?g) 25 255) 2"
  have "zero_img ?t"
    by (intro zero_img_dilate zero_img_threshold zero_img_absdiff_same)
  then have "findContours ?t = []" by (rule findContours_zero_img)
  moreover have "cvtColor f = Inr ?g" using assms by (simp add: cvtColor_def)
  moreover have "absdiff ?g ?g = Inr (map2 (map2 absd) ?g ?g)" by (simp add: absdiff_def)
  ultimately show ?thesis by (simp add: detect_motion_def)
qed

lemma detect_motion_mismatch:
  assumes "shape f1 \<noteq> shape f2"
  shows "detect_motion f1 f2 = Inl CvError"
  using assms
  by (simp add: detect_motion_def cvtColor_def absdiff_def shape_map)

text \<open>
  C7: two identical frames give no motion. (A frame has at least one row and one column:
  OpenCV rejects an empty image.)
\<close>

theorem identical_frames_no_motion:
  assumes "0 < fst (shape f)" and "0 < snd (shape f)"
  shows "\<exists>thresh. detect_motion f f = Inr (False, thresh) \<and> zero_img thresh"
proof -
  let ?g = "map (map gray_of) f"
  have "zero_img (dilate (threshold (map2 (map2 absd) ?g ?g) 25 255) 2)"
    by (intro zero_img_dilate zero_img_threshold zero_img_absdiff_same)
  with detect_motion_same [OF assms] show ?thesis by simp
qed

theorem identical_frames_no_motion_witness:
  "0 < fst (shape ([[(10, 20, 30), (200, 100, 0)], [(0, 0, 0), (255, 255, 255)]] :: frame)) \<and>
   0 < snd (shape ([[(10, 20, 30), (200, 100, 0)], [(0, 0, 0), (255, 255, 255)]] :: frame)) \<and>
   (\<exists>thresh. detect_motion [[(10, 20, 30), (200, 100, 0)], [(0, 0, 0), (255, 255, 255)]]
                [[(10, 20, 30), (200, 100, 0)], [(0, 0, 0), (255, 255, 255)]] = Inr (False, thresh))"
proof -
  have h1: "0 < fst (shape ([[(10, 20, 30), (200, 100, 0)], [(0, 0, 0), (255, 255, 255)]] :: frame))"
    by (simp add: shape_def)
  have h2: "0 < snd (shape ([[(10, 20, 30), (200, 100, 0)], [(0, 0, 0), (255, 255, 255)]] :: frame))"
    by (simp add: shape_def)
  from identical_frames_no_motion [OF h1 h2] h1 h2 show ?thesis by blast
qed

section \<open>One iteration of the monitor loop\<close>

text \<open>
  What the two phases of an iteration change, and the four ways an iteration can end: the
  frame differ raises, the detector wrapper raises, the insertion of the alert raises, or the
  iteration runs to its end.
\<close>

lemma detect_humans_try_Inl:
  "detect_humans_try cfg yolo_out tf_out = Inl e \<Longrightarrow> yolo_out = Inl e \<or> tf_out = Inl e"
  by (auto simp: detect_humans_try_def Let_def split: if_splits sum.splits)

lemma sample_presence_fields:
  "sample_presence cfg m t = Inr m3 \<Longrightarrow>
   frame_count m3 = frame_count m \<and> reported m3 = reported m \<and> alerts m3 = alerts m \<and>
   last_motion_time m3 = last_motion_time m \<and> frame1 m3 = frame1 m \<and> frame2 m3 = frame2 m \<and>
   beeps m3 = beeps m \<and>
   detector_calls m3 =
     detector_calls m @ (if frame_count m mod 30 = 0 then [frame_count m] else []) \<and>
   (frame_count m mod 30 \<noteq> 0 \<longrightarrow> human_present m3 = human_present m)"
  by (auto simp: sample_presence_def split: if_splits sum.splits prod.splits)


lemma dispatch_alert_Inl:
  "dispatch_alert cfg m t s twm = Inl e \<longleftrightarrow> contains ''ALERT'' s \<and> sink_fault t = Some e"
  by (auto simp: dispatch_alert_def log_alert_def Let_def split: option.splits)

lemma dispatch_alert_Inr:
  "dispatch_alert cfg m t s twm = Inr m5 \<Longrightarrow> contains ''ALERT'' s \<Longrightarrow> sink_fault t = None"
  by (auto simp: dispatch_alert_def log_alert_def split: option.splits)

lemma dispatch_alert_fields:
  "dispatch_alert cfg m t s twm = Inr m5 \<Longrightarrow>
   frame_count m5 = frame_count m \<and> reported m5 = reported m \<and>
   human_present m5 = human_present m \<and> detector_calls m5 = detector_calls m \<and>
   last_motion_time m5 = last_motion_time m \<and> frame1 m5 = frame1 m \<and> frame2 m5 = frame2 m \<and>
   alerts m5 = (if contains ''ALERT'' s
                then alerts m @ [\<lparr>alert_type = ''DROWNING_ALERT'', status = s, time_without_motion = twm\<rparr>]
                else alerts m)"
  by (auto simp: dispatch_alert_def log_alert_def Let_def split: option.splits if_splits)

lemma loop_body_cases:
  assumes "loop_body cfg m t = (sg, m')"
  obtains
    (motion_raise) e where
      "detect_motion (frame1 m) (frame2 m) = Inl e" "sg = Raise e"
      "m' = m\<lparr>frame_count := frame_count m + 1\<rparr>"
  | (sample_raise) motion thresh e where
      "detect_motion (frame1 m) (frame2 m) = Inr (motion, thresh)"
      "sample_presence cfg
         (if motion then m\<lparr>frame_count := frame_count m + 1, last_motion_time := now_motion t\<rparr>
          else m\<lparr>frame_count := frame_count m + 1\<rparr>) t = Inl e"
      "sg = Raise e"
      "m' = (if motion then m\<lparr>frame_count := frame_count m + 1, last_motion_time := now_motion t\<rparr>
             else m\<lparr>frame_count := frame_count m + 1\<rparr>)
            \<lparr>detector_calls := detector_calls m @ [frame_count m + 1]\<rparr>"
  | (sink_raise) motion thresh m3 e where
      "detect_motion (frame1 m) (frame2 m) = Inr (motion, thresh)"
      "sample_presence cfg
         (if motion then m\<lparr>frame_count := frame_count m + 1, last_motion_time := now_motion t\<rparr>
          else m\<lparr>frame_count := frame_count m + 1\<rparr>) t = Inr m3"
      "dispatch_alert cfg
         (m3\<lparr>reported := reported m3 @
            [analyze_drowning_risk (human_present m3) motion (now t - last_motion_time m3)]\<rparr>) t
         (analyze_drowning_risk (human_present m3) motion (now t - last_motion_time m3))
         (now t - last_motion_time m3) = Inl e"
      "sg = Raise e"
      "m' = m3\<lparr>reported := reported m3 @
            [analyze_drowning_risk (human_present m3) motion (now t - last_motion_time m3)]\<rparr>"
  | (completed) motion thresh m3 m5 where
      "detect_motion (frame1 m) (frame2 m) = Inr (motion, thresh)"
      "sample_presence cfg
         (if motion then m\<lparr>frame_count := frame_count m + 1, last_motion_time := now_motion t\<rparr>
          else m\<lparr>frame_count := frame_count m + 1\<rparr>) t = Inr m3"
      "dispatch_alert cfg
         (m3\<lparr>reported := reported m3 @
            [analyze_drowning_risk (human_present m3) motion (now t - last_motion_time m3)]\<rparr>) t
         (analyze_drowning_risk (human_present m3) motion (now t - last_motion_time m3))
         (now t - last_motion_time m3) = Inr m5"
      "sg = Next \<or> sg = Break"
      "m' = (case next_frame t of None \<Rightarrow> m5\<lparr>frame1 := frame2 m5\<rparr>
             | Some f \<Rightarrow> m5\<lparr>frame1 := frame2 m5, frame2 := f\<rparr>)"
      "sg = (if next_frame t = None \<or> key_q t then Break else Next)"
proof (cases "detect_motion (frame1 m) (frame2 m)")
  case (Inl e)
  with assms have "sg = Raise e" "m' = m\<lparr>frame_count := frame_count m + 1\<rparr>"
    by (simp_all add: loop_body_def)
  with Inl show ?thesis by (rule motion_raise)
next
  case (Inr r)
  obtain motion thresh where r: "r = (motion, thresh)" by (cases r)
  let ?m2 = "if motion then m\<lparr>frame_count := frame_count m + 1, last_motion_time := now_motion t\<rparr>
          else m\<lparr>frame_count := frame_count m + 1\<rparr>"
  have dm: "detect_motion (frame1 m) (frame2 m) = Inr (motion, thresh)" using Inr r by simp
  show ?thesis
  proof (cases "sample_presence cfg ?m2 t")
    case (Inl e)
    have "loop_body cfg m t =
        (Raise e, ?m2\<lparr>detector_calls := detector_calls m @ [frame_count m + 1]\<rparr>)"
      using dm Inl by (cases motion) (simp_all add: loop_body_def Let_def)
    with assms have "sg = Raise e"
      "m' = ?m2\<lparr>detector_calls := detector_calls m @ [frame_count m + 1]\<rparr>" by simp_all
    with dm Inl show ?thesis by (intro sample_raise)
  next
    case m3: (Inr m3)
    let ?s = "analyze_drowning_risk (human_present m3) motion (now t - last_motion_time m3)"
    let ?m4 = "m3\<lparr>reported := reported m3 @ [?s]\<rparr>"
    show ?thesis
    proof (cases "dispatch_alert cfg ?m4 t ?s (now t - last_motion_time m3)")
      case (Inl e)
      have "loop_body cfg m t = (Raise e, ?m4)"
        using dm m3 Inl by (cases motion) (simp_all add: loop_body_def Let_def)
      with assms have "sg = Raise e" "m' = ?m4" by simp_all
      with dm m3 Inl show ?thesis by (intro sink_raise)
    next
      case (Inr m5)
      have "loop_body cfg m t =
         (case next_frame t of None \<Rightarrow> (Break, m5\<lparr>frame1 := frame2 m5\<rparr>)
          | Some f \<Rightarrow> if key_q t then (Break, m5\<lparr>frame1 := frame2 m5, frame2 := f\<rparr>)
                      else (Next, m5\<lparr>frame1 := frame2 m5, frame2 := f\<rparr>))"
        using dm m3 Inr by (cases motion) (simp_all add: loop_body_def Let_def split: option.split)
      with assms have "sg = Next \<or> sg = Break"
        "m' = (case next_frame t of None \<Rightarrow> m5\<lparr>frame1 := frame2 m5\<rparr>
               | Some f \<Rightarrow> m5\<lparr>frame1 := frame2 m5, frame2 := f\<rparr>)"
        "sg = (if next_frame t = None \<or> key_q t then Break else Next)"
        by (auto split: option.splits if_splits)
      with dm m3 Inr show ?thesis by (intro completed)
    qed
  qed
qed

lemma loop_body_frame_count:
  "loop_body cfg m t = (sg, m') \<Longrightarrow> frame_count m' = frame_count m + 1"
  by (erule loop_body_cases)
     (auto dest!: sample_presence_fields dispatch_alert_fields split: option.splits if_splits)

lemma loop_body_detector_calls:
  "loop_body cfg m t = (sg, m') \<Longrightarrow> sg = Next \<or> sg = Break \<Longrightarrow>
   detector_calls m' =
     detector_calls m @ (if (frame_count m + 1) mod 30 = 0 then [frame_count m + 1] else [])"
  by (erule loop_body_cases)
     (auto dest!: sample_presence_fields dispatch_alert_fields split: option.splits if_splits)

lemma loop_body_alerts:
  "loop_body cfg m t = (sg, m') \<Longrightarrow> sink_fault t = None \<Longrightarrow>
   map status (alerts m) = filter (contains ''ALERT'') (reported m) \<Longrightarrow>
   map status (alerts m') = filter (contains ''ALERT'') (reported m')"
  by (erule loop_body_cases)
     (auto simp: dispatch_alert_Inl dest!: sample_presence_fields dispatch_alert_fields split: option.splits if_splits)

lemma loop_body_unsampled:
  "(frame_count m + 1) mod 30 \<noteq> 0 \<Longrightarrow> loop_body cfg m t = (sg, m') \<Longrightarrow> human_present m' = human_present m"
  by (erule loop_body_cases)
     (auto dest!: sample_presence_fields dispatch_alert_fields split: option.splits if_splits)

lemma loop_body_reported:
  "loop_body cfg m t = (sg, m') \<Longrightarrow>
     (\<exists>e. sg = Raise e \<and> reported m' = reported m) \<or>
     (\<exists>motion thresh hp. detect_motion (frame1 m) (frame2 m) = Inr (motion, thresh) \<and>
         ((frame_count m + 1) mod 30 \<noteq> 0 \<longrightarrow> hp = human_present m) \<and> hp = human_present m' \<and>
         reported m' = reported m @ [analyze_drowning_risk hp motion
            (now t - (if motion then now_motion t else last_motion_time m))])"
  by (erule loop_body_cases)
     (auto dest!: sample_presence_fields dispatch_alert_fields split: option.splits if_splits)

lemma sample_presence_sink [simp]:
  "sample_presence cfg m (t\<lparr>sink_fault := x\<rparr>) = sample_presence cfg m t"
  by (simp add: sample_presence_def)

lemma sample_presence_beep [simp]:
  "sample_presence cfg m (t\<lparr>beep_ok := x\<rparr>) = sample_presence cfg m t"
  by (simp add: sample_presence_def)

lemma loop_body_beep:
  assumes x: "loop_body cfg m (t\<lparr>beep_ok := x\<rparr>) = (sg, m')"
    and y: "loop_body cfg m (t\<lparr>beep_ok := y\<rparr>) = (sg', m'')"
  shows "sg' = sg \<and> reported m'' = reported m' \<and> alerts m'' = alerts m' \<and>
         human_present m'' = human_present m' \<and> frame_count m'' = frame_count m'"
  using x
proof (cases rule: loop_body_cases)
  case (motion_raise e)
  with y show ?thesis by (simp add: loop_body_def)
next
  case (sample_raise motion thresh e)
  with y show ?thesis by (cases motion) (simp_all add: loop_body_def Let_def)
next
  case (sink_raise motion thresh m3 e)
  let ?s = "analyze_drowning_risk (human_present m3) motion (now t - last_motion_time m3)"
  let ?m4 = "m3\<lparr>reported := reported m3 @ [?s]\<rparr>"
  from sink_raise(3) have "dispatch_alert cfg ?m4 (t\<lparr>beep_ok := y\<rparr>) ?s
      (now t - last_motion_time m3) = Inl e"
    by (simp add: dispatch_alert_Inl)
  with y sink_raise(1,2,4,5) show ?thesis
    by (cases motion) (simp_all add: loop_body_def Let_def)
next
  case (completed motion thresh m3 m5)
  let ?s = "analyze_drowning_risk (human_present m3) motion (now t - last_motion_time m3)"
  let ?m4 = "m3\<lparr>reported := reported m3 @ [?s]\<rparr>"
  from completed(3) obtain m5' where
    d: "dispatch_alert cfg ?m4 (t\<lparr>beep_ok := y\<rparr>) ?s (now t - last_motion_time m3) = Inr m5'"
    and same: "reported m5' = reported m5" "alerts m5' = alerts m5"
      "human_present m5' = human_present m5" "frame_count m5' = frame_count m5"
    by (auto simp: dispatch_alert_def log_alert_def Let_def split: if_splits option.splits)
  have "loop_body cfg m (t\<lparr>beep_ok := y\<rparr>) =
     (case next_frame t of None \<Rightarrow> (Break, m5'\<lparr>frame1 := frame2 m5'\<rparr>)
      | Some f \<Rightarrow> if key_q t then (Break, m5'\<lparr>frame1 := frame2 m5', frame2 := f\<rparr>)
                  else (Next, m5'\<lparr>frame1 := frame2 m5', frame2 := f\<rparr>))"
    using completed(1,2) d
    by (cases motion) (simp_all add: loop_body_def Let_def split: option.split)
  with y completed(5,6) same show ?thesis by (auto split: option.splits if_splits)
qed

section \<open>Undisturbed iterations on the sample camera\<close>

text \<open>
  On the black frames of the sample camera nothing moves; an undisturbed iteration goes on to
  the next frame, and a stretch of them between two calls of the detector keeps the presence.
\<close>

lemma still_same: "\<exists>thresh. detect_motion still still = Inr (False, thresh)"
  using detect_motion_same [of still] by (simp add: still_def shape_def)

lemma still_wide: "detect_motion still wide = Inl CvError"
  by (rule detect_motion_mismatch) (simp_all add: still_def wide_def shape_def)

lemma plain_step:
  assumes "frame1 m = still" "frame2 m = still" "plain t"
  shows "\<exists>m1. loop_body cfg m t = (Next, m1) \<and> frame1 m1 = still \<and> frame2 m1 = still \<and>
     frame_count m1 = frame_count m + 1 \<and> last_motion_time m1 = last_motion_time m \<and>
     human_present m1 =
       (if (frame_count m + 1) mod 30 = 0
        then 0 < fst (projr (detect_humans_in_frame cfg (yolo t) (tf t) (handler_print t)))
        else human_present m) \<and>
     detector_calls m1 =
       detector_calls m @ (if (frame_count m + 1) mod 30 = 0 then [frame_count m + 1] else []) \<and>
     reported m1 =
       reported m @ [analyze_drowning_risk (human_present m1) False (now t - last_motion_time m)] \<and>
     alerts m1 = alerts m @
       (if contains ''ALERT''
             (analyze_drowning_risk (human_present m1) False (now t - last_motion_time m))
        then [\<lparr>alert_type = ''DROWNING_ALERT'',
               status = analyze_drowning_risk (human_present m1) False (now t - last_motion_time m),
               time_without_motion = now t - last_motion_time m\<rparr>]
        else [])"
proof -
  from still_same obtain thresh where dm: "detect_motion (frame1 m) (frame2 m) = Inr (False, thresh)"
    using assms by auto
  have "is_Exception e" if "detect_humans_try cfg (yolo t) (tf t) = Inl e" for e
    using detect_humans_try_Inl [OF that] assms(3) by (cases e) (auto simp: plain_def)
  then obtain c ds where
    det: "detect_humans_in_frame cfg (yolo t) (tf t) (handler_print t) = Inr (c, ds)"
    using assms(3)
    by (cases "detect_humans_try cfg (yolo t) (tf t)")
       (auto simp: detect_humans_in_frame_def plain_def)
  show ?thesis
    using assms dm det
    by (simp add: loop_body_def plain_def sample_presence_def dispatch_alert_def log_alert_def Let_def)
qed

lemma main_loop_append:
  "main_loop cfg m (ts1 @ ts2) =
     (case main_loop cfg m ts1 of
        (Running, m1) \<Rightarrow> main_loop cfg m1 ts2
      | r \<Rightarrow> r)"
proof (induction ts1 arbitrary: m)
  case Nil
  show ?case by simp
next
  case (Cons t ts1)
  show ?case
  proof (cases "opened t")
    case False
    then show ?thesis by simp
  next
    case True
    obtain sg m1 where b: "loop_body cfg m t = (sg, m1)" by (cases "loop_body cfg m t")
    show ?thesis using True b Cons.IH [of m1] by (cases sg) simp_all
  qed
qed

lemma plain_stretch:
  assumes "frame1 m = still" "frame2 m = still" "list_all plain ts"
    and "frame_count m mod 30 + length ts < 30"
  shows "\<exists>m'. main_loop cfg m ts = (Running, m') \<and> frame1 m' = still \<and> frame2 m' = still \<and>
     frame_count m' = frame_count m + length ts \<and> last_motion_time m' = last_motion_time m \<and>
     human_present m' = human_present m \<and> detector_calls m' = detector_calls m \<and>
     reported m' = reported m @
       map (\<lambda>t. analyze_drowning_risk (human_present m) False (now t - last_motion_time m)) ts \<and>
     (\<not> human_present m \<longrightarrow> alerts m' = alerts m)"
  using assms
proof (induction ts arbitrary: m)
  case Nil
  then show ?case by simp
next
  case (Cons t ts)
  from Cons.prems have pl: "plain t" and rest: "list_all plain ts" by simp_all
  from Cons.prems have ns: "(frame_count m + 1) mod 30 \<noteq> 0"
    by (simp add: mod_Suc split: if_splits)
  from plain_step [OF Cons.prems(1,2) pl, of cfg] ns obtain m1 where
    b: "loop_body cfg m t = (Next, m1)" and f: "frame1 m1 = still" "frame2 m1 = still"
    and fc: "frame_count m1 = frame_count m + 1" and lm: "last_motion_time m1 = last_motion_time m"
    and hp: "human_present m1 = human_present m" and dc: "detector_calls m1 = detector_calls m"
    and rp: "reported m1 = reported m @ [analyze_drowning_risk (human_present m1) False (now t - last_motion_time m)]"
    and al: "alerts m1 = alerts m @
       (if contains ''ALERT''
             (analyze_drowning_risk (human_present m1) False (now t - last_motion_time m))
        then [\<lparr>alert_type = ''DROWNING_ALERT'',
               status = analyze_drowning_risk (human_present m1) False (now t - last_motion_time m),
               time_without_motion = now t - last_motion_time m\<rparr>]
        else [])"
    by auto
  have al0: "\<not> human_present m \<longrightarrow> alerts m1 = alerts m"
    using al hp by (simp add: contains_ALERT_iff)
  from Cons.prems ns have room: "frame_count m1 mod 30 + length ts < 30"
    unfolding fc by (simp add: mod_Suc split: if_splits)
  from Cons.IH [OF f rest room] obtain m' where
    "main_loop cfg m1 ts = (Running, m')" "frame1 m' = still" "frame2 m' = still"
    "frame_count m' = frame_count m1 + length ts" "last_motion_time m' = last_motion_time m1"
    "human_present m' = human_present m1" "detector_calls m' = detector_calls m1"
    "reported m' = reported m1 @
       map (\<lambda>t. analyze_drowning_risk (human_present m1) False (now t - last_motion_time m1)) ts"
    "\<not> human_present m1 \<longrightarrow> alerts m' = alerts m1"
    by blast
  with b pl fc lm hp dc rp al0 show ?case by (simp add: plain_def)
qed

lemma plain_calm: "plain (calm i)"
  by (simp add: plain_def calm_def)

lemma first_frames_run:
  "\<exists>m. main_loop yolo_cfg (start still still 0) first_frames = (Running, m) \<and>
     frame1 m = still \<and> frame2 m = still \<and> frame_count m = 29 \<and> last_motion_time m = 0 \<and>
     \<not> human_present m \<and> detector_calls m = [] \<and> alerts m = [] \<and>
     reported m = map (\<lambda>t. ''No human detected'') first_frames \<and> length (reported m) = 29"
proof -
  have "list_all plain first_frames"
    by (simp add: first_frames_def list_all_iff plain_calm)
  moreover have "frame_count (start still still 0) mod 30 + length first_frames < 30"
    by (simp add: start_def first_frames_def)
  ultimately show ?thesis
    using plain_stretch [of "start still still 0" first_frames yolo_cfg]
    by (auto simp: start_def analyze_drowning_risk_def first_frames_def)
qed

lemma detect_calm:
  "detect_humans_in_frame yolo_cfg (yolo (calm i)) (tf (calm i)) (handler_print (calm i)) = Inr (1, [0])"
  by (simp add: detect_humans_in_frame_def detect_humans_try_def yolo_cfg_def calm_def)

lemma thirty_frames_run:
  "\<exists>m. main_loop yolo_cfg (start still still 0) (first_frames @ [calm 30]) = (Running, m) \<and>
     frame1 m = still \<and> frame2 m = still \<and> frame_count m = 30 \<and> last_motion_time m = 0 \<and>
     human_present m \<and> detector_calls m = [30] \<and> length (alerts m) = 1 \<and>
     reported m = map (\<lambda>t. ''No human detected'') first_frames @
                    [''ALERT: Potential drowning - No motion detected''] \<and>
     length (reported m) = 30"
proof -
  from first_frames_run obtain m29 where
    r: "main_loop yolo_cfg (start still still 0) first_frames = (Running, m29)"
    and f: "frame1 m29 = still" "frame2 m29 = still" and fc: "frame_count m29 = 29"
    and rest: "last_motion_time m29 = 0" "\<not> human_present m29" "detector_calls m29 = []"
      "alerts m29 = []" "reported m29 = map (\<lambda>t. ''No human detected'') first_frames"
      "length (reported m29) = 29"
    by blast
  from plain_step [OF f plain_calm, of yolo_cfg 30] obtain m30 where
    "loop_body yolo_cfg m29 (calm 30) = (Next, m30)" "frame1 m30 = still" "frame2 m30 = still"
    "frame_count m30 = 30" "last_motion_time m30 = 0" "human_present m30"
    "detector_calls m30 = [30]" "length (alerts m30) = 1"
    "reported m30 = map (\<lambda>t. ''No human detected'') first_frames @
                    [''ALERT: Potential drowning - No motion detected'']"
    using fc rest
    by (auto simp: detect_calm analyze_drowning_risk_def calm_def [of 30, THEN arg_cong [of _ _ now]])
  with r show ?thesis
    by (simp add: main_loop_append plain_calm [unfolded plain_def] rest first_frames_def)
qed

section \<open>Runs of the monitor loop\<close>

text \<open>Invariants of the loop, by induction on the answers of the world.\<close>

lemma main_loop_Cons_cases:
  assumes "main_loop cfg m (t # ts) = (out, m')"
  obtains
    (closed) "\<not> opened t" "out = Stopped" "m' = m"
  | (continue) m1 where "opened t" "loop_body cfg m t = (Next, m1)" "main_loop cfg m1 ts = (out, m')"
  | (break) "opened t" "loop_body cfg m t = (Break, m')" "out = Stopped"
  | (raise) e where "opened t" "loop_body cfg m t = (Raise e, m')" "out = Raised e"
proof (cases "opened t")
  case False
  with assms show ?thesis by (intro closed) simp_all
next
  case True
  obtain sg m1 where b: "loop_body cfg m t = (sg, m1)" by (cases "loop_body cfg m t")
  show ?thesis
  proof (cases sg)
    case Next
    with assms True b show ?thesis by (intro continue [of m1]) simp_all
  next
    case Break
    with assms True b show ?thesis by (intro break) simp_all
  next
    case (Raise e)
    with assms True b show ?thesis by (intro raise [of e]) simp_all
  qed
qed

lemma main_loop_alerts:
  assumes "main_loop cfg m ts = (out, m')" and "list_all (\<lambda>t. sink_fault t = None) ts"
    and "map status (alerts m) = filter (contains ''ALERT'') (reported m)"
  shows "map status (alerts m') = filter (contains ''ALERT'') (reported m')"
  using assms
proof (induction ts arbitrary: m)
  case Nil
  then show ?case by simp
next
  case (Cons t ts)
  from Cons.prems(2) have t: "sink_fault t = None" and ts: "list_all (\<lambda>t. sink_fault t = None) ts"
    by simp_all
  from Cons.prems(1) show ?case
  proof (cases rule: main_loop_Cons_cases)
    case closed
    with Cons.prems(3) show ?thesis by simp
  next
    case (continue m1)
    from loop_body_alerts [OF continue(2) t Cons.prems(3)] Cons.IH [OF continue(3) ts]
    show ?thesis by simp
  next
    case break
    from loop_body_alerts [OF break(2) t Cons.prems(3)] show ?thesis .
  next
    case (raise e)
    from loop_body_alerts [OF raise(2) t Cons.prems(3)] show ?thesis .
  qed
qed

lemma sampled_upto_Suc:
  "filter (\<lambda>k. k mod 30 = 0) [1 ..< Suc n + 1] =
     filter (\<lambda>k. k mod 30 = 0) [1 ..< n + 1] @ (if Suc n mod 30 = 0 then [Suc n] else [])"
  by simp

lemma sampled_count: "length (filter (\<lambda>k. k mod 30 = 0) [1 ..< n + 1]) = n div 30"
proof (induction n)
  case 0
  show ?case by simp
next
  case (Suc n)
  have "length (filter (\<lambda>k. k mod 30 = 0) [1 ..< Suc n + 1]) =
      n div 30 + (if Suc n mod 30 = 0 then 1 else 0)"
    unfolding sampled_upto_Suc using Suc.IH by simp
  also have "\<dots> = Suc n div 30" by (simp add: div_Suc)
  finally show ?case .
qed

lemma main_loop_detector_calls:
  assumes "main_loop cfg m ts = (out, m')" and "out = Running \<or> out = Stopped"
    and "detector_calls m = filter (\<lambda>k. k mod 30 = 0) [1 ..< frame_count m + 1]"
  shows "detector_calls m' = filter (\<lambda>k. k mod 30 = 0) [1 ..< frame_count m' + 1]"
  using assms
proof (induction ts arbitrary: m)
  case Nil
  then show ?case by simp
next
  case (Cons t ts)
  have step: "detector_calls m1 = filter (\<lambda>k. k mod 30 = 0) [1 ..< frame_count m1 + 1]"
    if b: "loop_body cfg m t = (sg, m1)" and sg: "sg = Next \<or> sg = Break" for sg m1
  proof -
    from loop_body_frame_count [OF b] have fc: "frame_count m1 = Suc (frame_count m)" by simp
    from loop_body_detector_calls [OF b sg] Cons.prems(3) show ?thesis
      unfolding fc using sampled_upto_Suc [of "frame_count m"] by simp
  qed
  from Cons.prems(1) show ?case
  proof (cases rule: main_loop_Cons_cases)
    case closed
    with Cons.prems(3) show ?thesis by simp
  next
    case (continue m1)
    from Cons.IH [OF continue(3) Cons.prems(2) step [OF continue(2)]] show ?thesis by simp
  next
    case break
    from step [OF break(2)] show ?thesis by simp
  next
    case (raise e)
    with Cons.prems(2) show ?thesis by simp
  qed
qed

lemma early_iff:
  "early m \<longleftrightarrow>
     length (reported m) = frame_count m \<and> (frame_count m < 30 \<longrightarrow> \<not> human_present m) \<and>
     (\<forall>k < length (reported m). k < 29 \<longrightarrow> reported m ! k = ''No human detected'')"
  by (auto simp: early_def list_all_length)

lemma loop_body_early_reported:
  assumes b: "loop_body cfg m t = (sg, m')" and e: "early m"
  shows "\<forall>k < length (reported m'). k < 29 \<longrightarrow> reported m' ! k = ''No human detected''"
proof -
  from loop_body_reported [OF b] show ?thesis
  proof (elim disjE exE conjE)
    fix e' assume "reported m' = reported m"
    with e show ?thesis by (simp add: early_iff)
  next
    fix motion thresh hp
    assume hp: "(frame_count m + 1) mod 30 \<noteq> 0 \<longrightarrow> hp = human_present m"
      and r: "reported m' = reported m @ [analyze_drowning_risk hp motion
            (now t - (if motion then now_motion t else last_motion_time m))]"
    show ?thesis
    proof (intro allI impI)
      fix k assume k: "k < length (reported m')" "k < 29"
      show "reported m' ! k = ''No human detected''"
      proof (cases "k < length (reported m)")
        case True
        with e k r show ?thesis by (simp add: early_iff nth_append)
      next
        case False
        with k r e have kk: "k = frame_count m" by (simp add: early_iff)
        with k have "(frame_count m + 1) mod 30 \<noteq> 0" "frame_count m < 30" by simp_all
        with hp e have "\<not> hp" by (simp add: early_iff)
        with r kk e show ?thesis by (simp add: early_iff nth_append analyze_drowning_risk_def)
      qed
    qed
  qed
qed

lemma loop_body_early:
  assumes b: "loop_body cfg m t = (sg, m')" and sg: "sg = Next \<or> sg = Break" and e: "early m"
  shows "early m'"
proof -
  from loop_body_frame_count [OF b] have fc: "frame_count m' = frame_count m + 1" .
  from loop_body_reported [OF b] sg e have len: "length (reported m') = frame_count m'"
    unfolding fc by (auto simp: early_iff)
  have "\<not> human_present m'" if "frame_count m' < 30"
  proof -
    from that fc have "(frame_count m + 1) mod 30 \<noteq> 0" "frame_count m < 30" by simp_all
    with loop_body_unsampled [OF _ b] e show ?thesis by (simp add: early_iff)
  qed
  with len loop_body_early_reported [OF b e] show ?thesis by (simp add: early_iff)
qed

lemma main_loop_early:
  assumes "main_loop cfg m ts = (out, m')" and "early m"
  shows "\<forall>k < length (reported m'). k < 29 \<longrightarrow> reported m' ! k = ''No human detected''"
  using assms
proof (induction ts arbitrary: m)
  case Nil
  then show ?case by (simp add: early_iff)
next
  case (Cons t ts)
  from Cons.prems(1) show ?case
  proof (cases rule: main_loop_Cons_cases)
    case closed
    with Cons.prems(2) show ?thesis by (simp add: early_iff)
  next
    case (continue m1)
    from loop_body_early [OF continue(2) _ Cons.prems(2)] have "early m1" by simp
    from Cons.IH [OF continue(3) this] show ?thesis .
  next
    case break
    from loop_body_early_reported [OF break(2) Cons.prems(2)] show ?thesis .
  next
    case (raise e)
    from loop_body_early_reported [OF raise(2) Cons.prems(2)] show ?thesis .
  qed
qed

lemma early_start: "early (start f1 f2 clock0)"
  by (simp add: early_iff start_def)

section \<open>Properties of the monitor loop\<close>

text \<open>
  C1, as the spec states it: one unbroken ALERT episode appends exactly one alert. On the
  sample camera the detector sees a person at frame 30, nothing has moved for 30 seconds, and
  frames 30 and 31 are both reported ALERT: they are the last two frames of the run and the
  only ALERT frames, so they are one episode, and the alerts table has two rows.
\<close>

theorem alert_every_frame_counterexample:
  "take 2 (rev (reported (snd (the (main yolo_cfg (Some still) (Some still) 0
      (first_frames @ [calm 30, calm 31])))))) =
     [''ALERT: Potential drowning - No motion detected'',
      ''ALERT: Potential drowning - No motion detected''] \<and>
   length (filter (contains ''ALERT'') (reported (snd (the (main yolo_cfg (Some still) (Some still) 0
      (first_frames @ [calm 30, calm 31])))))) = 2 \<and>
   length (alerts (snd (the (main yolo_cfg (Some still) (Some still) 0
      (first_frames @ [calm 30, calm 31]))))) = 2"
proof -
  from thirty_frames_run obtain m30 where
    r: "main_loop yolo_cfg (start still still 0) (first_frames @ [calm 30]) = (Running, m30)"
    and f: "frame1 m30 = still" "frame2 m30 = still" and fc: "frame_count m30 = 30"
    and rest: "last_motion_time m30 = 0" "human_present m30" "length (alerts m30) = 1"
      "reported m30 = map (\<lambda>t. ''No human detected'') first_frames @
                    [''ALERT: Potential drowning - No motion detected'']"
    by blast
  from plain_step [OF f plain_calm, of yolo_cfg 31] obtain m31 where
    b: "loop_body yolo_cfg m30 (calm 31) = (Next, m31)"
    and "length (alerts m31) = 2"
      "reported m31 = map (\<lambda>t. ''No human detected'') first_frames @
                    [''ALERT: Potential drowning - No motion detected'',
                     ''ALERT: Potential drowning - No motion detected'']"
    using fc rest
    by (auto simp: analyze_drowning_risk_def calm_def [of 31, THEN arg_cong [of _ _ now]])
  moreover have "main yolo_cfg (Some still) (Some still) 0 (first_frames @ [calm 30, calm 31]) =
      Some (Running, m31)"
    using main_loop_append [of yolo_cfg "start still still 0" "first_frames @ [calm 30]" "[calm 31]"] r b
    by (simp add: main_def plain_calm [unfolded plain_def])
  ultimately show ?thesis by simp
qed

text \<open>
  C1, amended: while the database accepts every row, an alert is appended on every frame that
  is reported ALERT (the test is on the level, not on its edge): the rows of the alerts table
  are, in order, the ALERT statuses reported, so an unbroken ALERT episode of n frames
  appends n alerts.
\<close>

theorem alert_logged_on_every_alert_frame:
  assumes "main cfg read1 read2 clock0 ticks = Some (out, m)"
    and "list_all (\<lambda>t. sink_fault t = None) ticks"
  shows "map status (alerts m) = filter (contains ''ALERT'') (reported m)"
proof -
  from assms(1) obtain f1 f2 where "main_loop cfg (start f1 f2 clock0) ticks = (out, m)"
    by (auto simp: main_def split: option.splits)
  from main_loop_alerts [OF this assms(2)] show ?thesis by (simp add: start_def)
qed

theorem alert_logged_on_every_alert_frame_witness:
  "list_all (\<lambda>t. sink_fault t = None) (first_frames @ [calm 30, calm 31]) \<and>
   map status (alerts (snd (the (main yolo_cfg (Some still) (Some still) 0
      (first_frames @ [calm 30, calm 31]))))) =
   filter (contains ''ALERT'') (reported (snd (the (main yolo_cfg (Some still) (Some still) 0
      (first_frames @ [calm 30, calm 31])))))"
proof -
  have h: "list_all (\<lambda>t. sink_fault t = None) (first_frames @ [calm 30, calm 31])"
    by (simp add: first_frames_def list_all_iff calm_def)
  obtain out m where r: "main yolo_cfg (Some still) (Some still) 0
      (first_frames @ [calm 30, calm 31]) = Some (out, m)"
    by (cases "main_loop yolo_cfg (start still still 0) (first_frames @ [calm 30, calm 31])")
       (simp add: main_def)
  from alert_logged_on_every_alert_frame [OF r h] r h show ?thesis by simp
qed




text \<open>
  C4, as the spec states it: over 30 frames the detector is called \<open>30 div 30 + 1\<close> times,
  the first frame included. On the sample camera it is called once, at frame 30.
\<close>

theorem first_frame_not_sampled_counterexample:
  "frame_count (snd (the (main yolo_cfg (Some still) (Some still) 0 (first_frames @ [calm 30])))) = 30 \<and>
   detector_calls (snd (the (main yolo_cfg (Some still) (Some still) 0 (first_frames @ [calm 30])))) = [30] \<and>
   length (detector_calls (snd (the (main yolo_cfg (Some still) (Some still) 0 (first_frames @ [calm 30])))))
     \<noteq> 30 div 30 + 1"
  using thirty_frames_run by (auto simp: main_def)

text \<open>
  C4, amended: in a run that ends without an exception after \<open>frame_count\<close> iterations, the
  detector is called exactly on the frames whose counter, which starts at 1, is a multiple of
  30: \<open>frame_count div 30\<close> times, and not on the first frame.
\<close>

theorem detector_called_every_30th_frame:
  assumes "main cfg read1 read2 clock0 ticks = Some (out, m)"
    and "out = Running \<or> out = Stopped"
  shows "detector_calls m = filter (\<lambda>k. k mod 30 = 0) [1 ..< frame_count m + 1] \<and>
         length (detector_calls m) = frame_count m div 30"
proof -
  from assms(1) obtain f1 f2 where "main_loop cfg (start f1 f2 clock0) ticks = (out, m)"
    by (auto simp: main_def split: option.splits)
  from main_loop_detector_calls [OF this assms(2)]
  have "detector_calls m = filter (\<lambda>k. k mod 30 = 0) [1 ..< frame_count m + 1]"
    by (simp add: start_def)
  then show ?thesis by (simp only: sampled_count simp_thms)
qed

theorem detector_called_every_30th_frame_witness:
  "fst (the (main yolo_cfg (Some still) (Some still) 0 (first_frames @ [calm 30]))) = Running \<and>
   length (detector_calls (snd (the (main yolo_cfg (Some still) (Some still) 0
      (first_frames @ [calm 30]))))) =
   frame_count (snd (the (main yolo_cfg (Some still) (Some still) 0
      (first_frames @ [calm 30])))) div 30"
proof -
  from thirty_frames_run obtain m where
    r: "main yolo_cfg (Some still) (Some still) 0 (first_frames @ [calm 30]) = Some (Running, m)"
    by (auto simp: main_def)
  have "length (detector_calls m) = frame_count m div 30"
    using detector_called_every_30th_frame [OF r disjI1 [OF refl]] by (rule conjunct2)
  with r show ?thesis by simp
qed

text \<open>
  C5, as the spec states it: a failure to persist an alert never reaches the control flow of
  the loop. On the sample camera the insertion of the alert of frame 30 fails: the exception
  leaves \<open>main\<close>, the table stays empty, and frames 31 and 32 are never processed.
\<close>

theorem sink_failure_counterexample:
  "fst (the (main yolo_cfg (Some still) (Some still) 0
      (first_frames @ [(calm 30)\<lparr>sink_fault := Some SqliteError\<rparr>, calm 31, calm 32]))) =
     Raised SqliteError \<and>
   frame_count (snd (the (main yolo_cfg (Some still) (Some still) 0
      (first_frames @ [(calm 30)\<lparr>sink_fault := Some SqliteError\<rparr>, calm 31, calm 32])))) = 30 \<and>
   alerts (snd (the (main yolo_cfg (Some still) (Some still) 0
      (first_frames @ [(calm 30)\<lparr>sink_fault := Some SqliteError\<rparr>, calm 31, calm 32])))) = []"
proof -
  from first_frames_run obtain m29 where
    r: "main_loop yolo_cfg (start still still 0) first_frames = (Running, m29)"
    and f: "frame1 m29 = still" "frame2 m29 = still" and fc: "frame_count m29 = 29"
    and rest: "last_motion_time m29 = 0" "alerts m29 = []"
    by blast
  from still_same f obtain thresh where
    dm: "detect_motion (frame1 m29) (frame2 m29) = Inr (False, thresh)" by auto
  have "\<exists>m30. loop_body yolo_cfg m29 ((calm 30)\<lparr>sink_fault := Some SqliteError\<rparr>) =
           (Raise SqliteError, m30) \<and> frame_count m30 = 30 \<and> alerts m30 = []"
    using dm fc rest
    by (simp add: loop_body_def sample_presence_def dispatch_alert_def log_alert_def Let_def
        calm_def detect_humans_in_frame_def detect_humans_try_def yolo_cfg_def
        analyze_drowning_risk_def)
  then obtain m30 where
    "loop_body yolo_cfg m29 ((calm 30)\<lparr>sink_fault := Some SqliteError\<rparr>) = (Raise SqliteError, m30)"
    "frame_count m30 = 30" "alerts m30 = []" by blast
  then have "main yolo_cfg (Some still) (Some still) 0
      (first_frames @ [(calm 30)\<lparr>sink_fault := Some SqliteError\<rparr>, calm 31, calm 32]) =
      Some (Raised SqliteError, m30)" "frame_count m30 = 30" "alerts m30 = []"
    using r by (simp_all add: main_def main_loop_append calm_def)
  then show ?thesis by simp
qed

text \<open>
  C5, amended: when the insertion of an alert fails, the exception leaves \<open>log_alert\<close> and
  the loop, which ends there without a retry and without the row; a failure of the beep is
  swallowed, without a log line or a retry, and changes neither the control flow of the
  iteration nor what it reports and stores.
\<close>

theorem sink_failure_ends_loop:
  assumes "opened t" and "loop_body cfg m (t\<lparr>sink_fault := None\<rparr>) = (sg, m1)"
    and "sg = Next \<or> sg = Break" and "contains ''ALERT'' (last (reported m1))"
    and "loop_body cfg m (t\<lparr>beep_ok := False\<rparr>) = (sgx, mx)"
    and "loop_body cfg m (t\<lparr>beep_ok := True\<rparr>) = (sgy, my)"
  shows "(\<exists>m'. main_loop cfg m (t\<lparr>sink_fault := Some e\<rparr> # ts) = (Raised e, m') \<and>
            alerts m' = alerts m \<and> reported m' = reported m1) \<and>
         sgy = sgx \<and> reported my = reported mx \<and> alerts my = alerts mx"
proof -
  from assms(2) have "\<exists>m'. loop_body cfg m (t\<lparr>sink_fault := Some e\<rparr>) = (Raise e, m') \<and>
      alerts m' = alerts m \<and> reported m' = reported m1"
  proof (cases rule: loop_body_cases)
    case (motion_raise e')
    with assms(3) show ?thesis by simp
  next
    case (sample_raise motion thresh e')
    with assms(3) show ?thesis by simp
  next
    case (sink_raise motion thresh m3 e')
    with assms(3) show ?thesis by simp
  next
    case (completed motion thresh m3 m5)
    let ?s = "analyze_drowning_risk (human_present m3) motion (now t - last_motion_time m3)"
    let ?m4 = "m3\<lparr>reported := reported m3 @ [?s]\<rparr>"
    from completed(3) have d: "dispatch_alert cfg ?m4 (t\<lparr>sink_fault := None\<rparr>) ?s
        (now t - last_motion_time m3) = Inr m5" by simp
    from dispatch_alert_fields [OF d] completed(5)
    have rep: "reported m1 = reported m3 @ [?s]" by (simp split: option.splits)
    with assms(4) have "contains ''ALERT'' ?s" by simp
    then have "dispatch_alert cfg ?m4 (t\<lparr>sink_fault := Some e\<rparr>) ?s
        (now t - last_motion_time m3) = Inl e" by (simp add: dispatch_alert_Inl)
    with completed(1,2) have "loop_body cfg m (t\<lparr>sink_fault := Some e\<rparr>) = (Raise e, ?m4)"
      by (cases motion) (simp_all add: loop_body_def Let_def)
    moreover from completed(2) have "alerts m3 = alerts m"
      by (cases motion) (auto dest!: sample_presence_fields)
    ultimately show ?thesis using rep by simp
  qed
  with assms(1) have "\<exists>m'. main_loop cfg m (t\<lparr>sink_fault := Some e\<rparr> # ts) = (Raised e, m') \<and>
      alerts m' = alerts m \<and> reported m' = reported m1" by auto
  with loop_body_beep [OF assms(5,6)] show ?thesis by simp
qed

theorem sink_failure_ends_loop_witness:
  "opened (calm 30) \<and>
   fst (loop_body yolo_cfg ((start still still 0)\<lparr>frame_count := 29\<rparr>)
      ((calm 30)\<lparr>sink_fault := None\<rparr>)) = Next \<and>
   contains ''ALERT'' (last (reported (snd (loop_body yolo_cfg
      ((start still still 0)\<lparr>frame_count := 29\<rparr>) ((calm 30)\<lparr>sink_fault := None\<rparr>))))) \<and>
   fst (main_loop yolo_cfg ((start still still 0)\<lparr>frame_count := 29\<rparr>)
      [(calm 30)\<lparr>sink_fault := Some SqliteError\<rparr>, calm 31]) = Raised SqliteError \<and>
   fst (loop_body yolo_cfg ((start still still 0)\<lparr>frame_count := 29\<rparr>)
      ((calm 30)\<lparr>beep_ok := True\<rparr>)) =
   fst (loop_body yolo_cfg ((start still still 0)\<lparr>frame_count := 29\<rparr>)
      ((calm 30)\<lparr>beep_ok := False\<rparr>))"
proof -
  let ?m = "(start still still 0)\<lparr>frame_count := 29\<rparr>"
  have f: "frame1 ?m = still" "frame2 ?m = still" by (simp_all add: start_def)
  have o: "opened (calm 30)" by (simp add: calm_def)
  have pl: "plain ((calm 30)\<lparr>sink_fault := None\<rparr>)" "plain ((calm 30)\<lparr>beep_ok := False\<rparr>)"
    "plain ((calm 30)\<lparr>beep_ok := True\<rparr>)"
    by (simp_all add: plain_def calm_def)
  from plain_step [OF f pl(1), of yolo_cfg] obtain m1 where
    b: "loop_body yolo_cfg ?m ((calm 30)\<lparr>sink_fault := None\<rparr>) = (Next, m1)"
    and a: "contains ''ALERT'' (last (reported m1))"
    by (auto simp: start_def detect_humans_in_frame_def detect_humans_try_def yolo_cfg_def
        calm_def analyze_drowning_risk_def)
  from plain_step [OF f pl(2), of yolo_cfg] obtain mx where
    b0: "loop_body yolo_cfg ?m ((calm 30)\<lparr>beep_ok := False\<rparr>) = (Next, mx)" by blast
  from plain_step [OF f pl(3), of yolo_cfg] obtain my where
    b1: "loop_body yolo_cfg ?m ((calm 30)\<lparr>beep_ok := True\<rparr>) = (Next, my)" by blast
  from sink_failure_ends_loop [OF o b _ a b0 b1, of SqliteError "[calm 31]"] o b a b0 b1
  show ?thesis by auto
qed

text \<open>
  C6, as the spec states it: two consecutive frames of different sizes fail one frame's
  processing, and the loop goes on with the next frame. On the sample camera followed by a
  wider picture the loop ends at its first iteration with \<open>cv2.error\<close>; the second
  iteration never runs and nothing is reported.
\<close>

theorem mismatched_frames_counterexample:
  "main yolo_cfg (Some still) (Some wide) 0 [calm 1, calm 2] =
     Some (Raised CvError, (start still wide 0)\<lparr>frame_count := 1\<rparr>)"
  by (simp add: main_def start_def calm_def loop_body_def still_wide)

text \<open>
  C6, amended: for two consecutive frames of different sizes \<open>detect_motion\<close> raises \<open>cv2.error\<close>; \<open>main\<close> does not catch it, so the exception
  ends the loop at that frame, with nothing reported for it.
\<close>

theorem mismatched_frames_end_loop:
  assumes "shape (frame1 m) \<noteq> shape (frame2 m)" and "opened t"
  shows "detect_motion (frame1 m) (frame2 m) = Inl CvError \<and>
         main_loop cfg m (t # ts) = (Raised CvError, m\<lparr>frame_count := frame_count m + 1\<rparr>)"
proof -
  from detect_motion_mismatch [OF assms(1)]
  have dm: "detect_motion (frame1 m) (frame2 m) = Inl CvError" .
  then have "loop_body cfg m t = (Raise CvError, m\<lparr>frame_count := frame_count m + 1\<rparr>)"
    by (simp add: loop_body_def)
  with dm assms(2) show ?thesis by simp
qed

theorem mismatched_frames_end_loop_witness:
  "shape (frame1 (start still wide 0)) \<noteq> shape (frame2 (start still wide 0)) \<and>
   opened (calm 1) \<and>
   main_loop yolo_cfg (start still wide 0) [calm 1, calm 2] =
     (Raised CvError, (start still wide 0)\<lparr>frame_count := 1\<rparr>)"
proof -
  have h: "shape (frame1 (start still wide 0)) \<noteq> shape (frame2 (start still wide 0))"
    "opened (calm 1)"
    by (simp_all add: start_def still_def wide_def shape_def calm_def)
  from mismatched_frames_end_loop [OF h, of yolo_cfg "[calm 2]"] h show ?thesis by (simp add: start_def)
qed

text \<open>
  C10: \<open>human_present\<close> is false when the monitor starts and an iteration whose counter is
  not a multiple of 30 leaves it as it was; so in every run each of the first 29 frames that
  is reported is reported without a subject.
\<close>

theorem first_frames_no_subject:
  assumes "main cfg read1 read2 clock0 ticks = Some (out, m)"
    and "k < length (reported m)" and "k < 29"
    and "loop_body cfg m0 t = (sg, m1)" and "(frame_count m0 + 1) mod 30 \<noteq> 0"
  shows "reported m ! k = ''No human detected'' \<and>
         \<not> human_present (start f1 f2 clock0) \<and>
         human_present m1 = human_present m0"
proof -
  from assms(1) obtain f1' f2' where
    "main_loop cfg (start f1' f2' clock0) ticks = (out, m)"
    by (auto simp: main_def split: option.splits)
  from main_loop_early [OF this early_start] assms(2,3)
  have "reported m ! k = ''No human detected''" by simp
  moreover have "\<not> human_present (start f1 f2 clock0)" by (simp add: start_def)
  moreover from loop_body_unsampled [OF assms(5,4)] have "human_present m1 = human_present m0" .
  ultimately show ?thesis by simp
qed

theorem first_frames_no_subject_witness:
  "28 < length (reported (snd (the (main yolo_cfg (Some still) (Some still) 0
      (first_frames @ [calm 30]))))) \<and>
   (frame_count (start still still 0) + 1) mod 30 \<noteq> 0 \<and>
   reported (snd (the (main yolo_cfg (Some still) (Some still) 0
      (first_frames @ [calm 30])))) ! 28 = ''No human detected'' \<and>
   human_present (snd (loop_body yolo_cfg (start still still 0) (calm 1))) =
     human_present (start still still 0)"
proof -
  from thirty_frames_run obtain m where
    r: "main yolo_cfg (Some still) (Some still) 0 (first_frames @ [calm 30]) = Some (Running, m)"
    and len: "length (reported m) = 30"
    by (auto simp: main_def)
  have k: "28 < length (reported m)" "(28 :: nat) < 29" using len by simp_all
  obtain sg m1 where b: "loop_body yolo_cfg (start still still 0) (calm 1) = (sg, m1)"
    by (cases "loop_body yolo_cfg (start still still 0) (calm 1)")
  have s: "(frame_count (start still still 0) + 1) mod 30 \<noteq> 0" by (simp add: start_def)
  from first_frames_no_subject [OF r k b s] r k b s show ?thesis by simp
qed

section \<open>Properties of the detector wrapper\<close>

text \<open>
  C9, as the spec states it: \<open>detect_humans_in_frame\<close> never propagates an exception. The
  YOLO backend times out and the \<open>print\<close> of the handler raises (the output is closed):
  that exception leaves the function. And a \<open>KeyboardInterrupt\<close> raised in the backend is
  not caught by \<open>except Exception\<close>: it leaves the function too.
\<close>

theorem handler_print_failure_counterexample:
  "detect_humans_in_frame yolo_cfg (Inl (DetectorError ''timeout'') :: exn + nat list) (Inr [])
     (Some (PrintError ''I/O operation on closed file'')) =
     Inl (PrintError ''I/O operation on closed file'') \<and>
   detect_humans_in_frame yolo_cfg (Inl KeyboardInterrupt :: exn + nat list) (Inr []) None =
     Inl KeyboardInterrupt"
  by (simp add: detect_humans_in_frame_def detect_humans_try_def yolo_cfg_def)

text \<open>
  C9, amended: \<open>detect_humans_in_frame\<close> returns a pair exactly when the body of its
  \<open>try\<close> returns one, or raises an exception that derives from \<open>Exception\<close> and the
  \<open>print\<close> of the handler succeeds. In the second case the pair is \<open>(0, [])\<close>, which is
  also what it returns when the backend answers and finds nobody, so the caller cannot tell
  such a failure from an absence. An exception raised by the \<open>print\<close> of the handler, and
  an exception of the body that does not derive from \<open>Exception\<close>, leave the function.
\<close>

theorem detect_humans_failure_as_absence:
  fixes yolo_out :: "exn + 'd list"
  shows
  "((\<exists>r. detect_humans_in_frame cfg yolo_out tf_out print_out = Inr r) \<longleftrightarrow>
      (case detect_humans_try cfg yolo_out tf_out of
         Inr r \<Rightarrow> True
       | Inl e \<Rightarrow> is_Exception e \<and> print_out = None)) \<and>
   (detect_humans_try cfg yolo_out tf_out = Inl e \<and> is_Exception e \<longrightarrow>
      detect_humans_in_frame cfg yolo_out tf_out None = Inr (0, []) \<and>
      detect_humans_in_frame cfg yolo_out tf_out None =
        detect_humans_in_frame cfg (Inr ([] :: 'd list)) (Inr []) None \<and>
      detect_humans_in_frame cfg yolo_out tf_out (Some e') = Inl e') \<and>
   (detect_humans_try cfg yolo_out tf_out = Inl e \<and> \<not> is_Exception e \<longrightarrow>
      detect_humans_in_frame cfg yolo_out tf_out print_out = Inl e)"
  by (auto simp: detect_humans_in_frame_def detect_humans_try_def split: sum.splits option.splits)

theorem detect_humans_failure_as_absence_witness:
  "detect_humans_try yolo_cfg (Inl (DetectorError ''timeout'') :: exn + nat list) (Inr []) =
     Inl (DetectorError ''timeout'') \<and>
   is_Exception (DetectorError ''timeout'') \<and>
   detect_humans_in_frame yolo_cfg (Inl (DetectorError ''timeout'') :: exn + nat list) (Inr []) None =
     Inr (0, []) \<and>
   detect_humans_in_frame yolo_cfg (Inl (DetectorError ''timeout'') :: exn + nat list) (Inr [])
     (Some (PrintError ''I/O operation on closed file'')) =
     Inl (PrintError ''I/O operation on closed file'') \<and>
   detect_humans_try yolo_cfg (Inl KeyboardInterrupt :: exn + nat list) (Inr []) =
     Inl KeyboardInterrupt \<and>
   \<not> is_Exception KeyboardInterrupt \<and>
   detect_humans_in_frame yolo_cfg (Inl KeyboardInterrupt :: exn + nat list) (Inr []) None =
     Inl KeyboardInterrupt"
proof -
  have a: "detect_humans_try yolo_cfg (Inl (DetectorError ''timeout'') :: exn + nat list) (Inr []) =
      Inl (DetectorError ''timeout'')"
    and b: "detect_humans_try yolo_cfg (Inl KeyboardInterrupt :: exn + nat list) (Inr []) =
      Inl KeyboardInterrupt"
    by (simp_all add: detect_humans_try_def yolo_cfg_def)
  from detect_humans_failure_as_absence
         [of yolo_cfg "Inl (DetectorError ''timeout'') :: exn + nat list" "Inr []" None
             "DetectorError ''timeout''" "PrintError ''I/O operation on closed file''"]
       detect_humans_failure_as_absence
         [of yolo_cfg "Inl KeyboardInterrupt :: exn + nat list" "Inr []" None KeyboardInterrupt]
       a b
  show ?thesis by simp
qed

end
